theory Spec2Isabelle
  imports Complex_Main
begin

section \<open>Python floats\<close>

text \<open>
  A Python float is either a finite value, one of the two infinities or NaN. A finite float
  is modelled by the real number it denotes (every double is a real, so a statement about all
  \<open>Fin x\<close> covers every finite double); arithmetic on finite values is exact, rounding to
  the nearest double is not modelled. Comparisons are those of IEEE 754: every comparison
  with NaN is false.
\<close>

datatype pyfloat = Fin real | PInf | NInf | NaN

fun isfinite :: "pyfloat \<Rightarrow> bool" where
  "isfinite (Fin x) = True"
| "isfinite PInf = False"
| "isfinite NInf = False"
| "isfinite NaN = False"

fun fle :: "pyfloat \<Rightarrow> pyfloat \<Rightarrow> bool" where
  "fle (Fin a) (Fin b) = (a \<le> b)"
| "fle NaN b = False"
| "fle a NaN = False"
| "fle NInf b = True"
| "fle a PInf = True"
| "fle a b = False"

fun flt :: "pyfloat \<Rightarrow> pyfloat \<Rightarrow> bool" where
  "flt (Fin a) (Fin b) = (a < b)"
| "flt NaN b = False"
| "flt a NaN = False"
| "flt PInf b = False"
| "flt a NInf = False"
| "flt a b = True"

definition fge :: "pyfloat \<Rightarrow> pyfloat \<Rightarrow> bool" where
  "fge a b = fle b a"

definition fgt :: "pyfloat \<Rightarrow> pyfloat \<Rightarrow> bool" where
  "fgt a b = flt b a"

section \<open>Risk classification (glofas.py, lines 114-147)\<close>

text \<open>
  \<open>values[np.isfinite(values) & (values > 0)]\<close>: boolean-mask indexing keeps, in row-major
  order, the entries where the mask holds.
\<close>

definition positive_mask :: "pyfloat \<Rightarrow> bool" where
  "positive_mask v = (isfinite v \<and> fgt v (Fin 0))"

text \<open>The entries that pass the mask are finite, so they are kept as reals.\<close>

fun positive :: "pyfloat list \<Rightarrow> real list" where
  "positive [] = []"
| "positive (Fin x # vs) = (if positive_mask (Fin x) then x # positive vs else positive vs)"
| "positive (v # vs) = positive vs"

text \<open>
  \<open>np.quantile(a, q)\<close> with NumPy's default method (linear): on the sorted data of length
  \<open>n\<close> the virtual index is \<open>q * (n - 1)\<close>, the previous index is its floor, the next index
  is one more (clipped to \<open>n - 1\<close>), and the result interpolates linearly between the two
  order statistics with weight the fractional part.
\<close>

definition lerp :: "real \<Rightarrow> real \<Rightarrow> real \<Rightarrow> real" where
  "lerp a b t = a + (b - a) * t"

definition np_quantile :: "real list \<Rightarrow> real \<Rightarrow> real" where
  "np_quantile a q =
     (let arr = sort a;
          values_count = length arr;
          virtual_index = q * real (values_count - 1);
          previous_index = nat \<lfloor>virtual_index\<rfloor>;
          next_index = min (previous_index + 1) (values_count - 1);
          gamma = virtual_index - real previous_index
      in lerp (arr ! previous_index) (arr ! next_index) gamma)"

definition compute_thresholds :: "pyfloat list \<Rightarrow> pyfloat \<times> pyfloat \<times> pyfloat" where
  "compute_thresholds vals =
     (let pos = positive vals in
      if length pos = 0 then (Fin 1, Fin 5, Fin 10)
      else (Fin (np_quantile pos (55 / 100)),
            Fin (np_quantile pos (85 / 100)),
            Fin (np_quantile pos (98 / 100))))"

text \<open>
  \<open>classify_point\<close> returns the pair \<open>(None, None)\<close> or a pair of two strings; the model
  returns \<open>None\<close> for the former and \<open>Some (risk_level, risk_color)\<close> for the latter.
\<close>

definition classify_point ::
  "pyfloat \<Rightarrow> pyfloat \<Rightarrow> pyfloat \<Rightarrow> pyfloat \<Rightarrow> (string \<times> string) option" where
  "classify_point discharge q2 q5 q20 =
     (if \<not> isfinite discharge \<or> fle discharge (Fin 0) then None
      else if fge discharge q20 then Some (''20'', ''purple'')
      else if fge discharge q5 then Some (''5'', ''red'')
      else if fge discharge q2 then Some (''2'', ''orange'')
      else Some (''1'', ''gray''))"

section \<open>Errors\<close>

text \<open>
  The exceptions the pipeline can raise; \<open>RuntimeError\<close> is the shape mismatch of line 206
  and carries the offending shape.
\<close>

datatype error = IndexError | KeyError string | RuntimeError "nat list"

definition and_then :: "error + 'a \<Rightarrow> ('a \<Rightarrow> error + 'b) \<Rightarrow> error + 'b" where
  "and_then r f = (case r of Inl e \<Rightarrow> Inl e | Inr x \<Rightarrow> f x)"

text \<open>\<open>xs[i]\<close> for a non-negative index: IndexError out of range.\<close>

definition getitem :: "'a list \<Rightarrow> nat \<Rightarrow> error + 'a" where
  "getitem xs i = (if i < length xs then Inr (xs ! i) else Inl IndexError)"

text \<open>\<open>range(n)\<close> for a Python integer \<open>n\<close>: empty when \<open>n \<le> 0\<close>.\<close>

definition py_range :: "int \<Rightarrow> nat list" where
  "py_range n = [0..<nat n]"

section \<open>The data cube\<close>

text \<open>
  An xarray \<open>DataArray\<close>: its dimensions in order, each with its size (\<open>dims\<close> and
  \<open>sizes\<close>), the labels of its \<open>step\<close> coordinate when it has one (lead times in hours),
  and its values as a flat buffer in row-major order, as NumPy stores them.
\<close>

record data_array =
  da_sizes :: "(string \<times> nat) list"
  da_step :: "int list option"
  da_values :: "pyfloat list"

definition da_dims :: "data_array \<Rightarrow> string list" where
  "da_dims da = map fst (da_sizes da)"

definition da_shape :: "data_array \<Rightarrow> nat list" where
  "da_shape da = map snd (da_sizes da)"

definition ndim :: "data_array \<Rightarrow> nat" where
  "ndim da = length (da_sizes da)"

text \<open>
  A \<open>Dataset\<close>: its data variables in declaration order and its one-dimensional coordinate
  arrays (\<open>ds[name].values\<close> for a coordinate \<open>name\<close>). Latitudes and longitudes are
  finite, so a coordinate array holds reals.
\<close>

record dataset =
  data_vars :: "(string \<times> data_array) list"
  coords :: "(string \<times> real list) list"

fun dim_index :: "string \<Rightarrow> (string \<times> nat) list \<Rightarrow> nat option" where
  "dim_index d [] = None"
| "dim_index d ((n, s) # rest) =
     (if n = d then Some 0 else map_option Suc (dim_index d rest))"

text \<open>
  \<open>da.isel({d: idx})\<close> for a non-negative integer index: the dimension is dropped and the
  values are those of the slice at \<open>idx\<close>. With \<open>outer\<close> the product of the sizes before
  the dimension and \<open>inner\<close> the product of those after it, the slice is made of the
  \<open>outer\<close> runs of \<open>inner\<close> values that start at \<open>(b * size + idx) * inner\<close>.
\<close>

definition isel :: "data_array \<Rightarrow> string \<Rightarrow> nat \<Rightarrow> error + data_array" where
  "isel da d idx =
     (case dim_index d (da_sizes da) of
        None \<Rightarrow> Inl (KeyError d)
      | Some k \<Rightarrow>
          (let sz = snd (da_sizes da ! k);
               outer = prod_list (map snd (take k (da_sizes da)));
               inner = prod_list (map snd (drop (Suc k) (da_sizes da)))
           in if idx < sz
              then Inr (da\<lparr>da_sizes := take k (da_sizes da) @ drop (Suc k) (da_sizes da),
                           da_values := concat (map (\<lambda>b. take inner
                              (drop ((b * sz + idx) * inner) (da_values da))) [0..<outer])\<rparr>)
              else Inl IndexError))"

fun label_index :: "int \<Rightarrow> int list \<Rightarrow> nat option" where
  "label_index l [] = None"
| "label_index l (x # xs) = (if x = l then Some 0 else map_option Suc (label_index l xs))"

text \<open>\<open>var.sel(step=l)\<close>: the slice whose step label is exactly \<open>l\<close>, KeyError when no label is.\<close>

definition sel_step :: "data_array \<Rightarrow> int \<Rightarrow> error + data_array" where
  "sel_step da l =
     (case da_step da of
        None \<Rightarrow> Inl (KeyError ''step'')
      | Some labels \<Rightarrow>
          (case label_index l labels of
             None \<Rightarrow> Inl (KeyError ''step'')
           | Some k \<Rightarrow> isel da ''step'' k))"

section \<open>Variable selection (glofas.py, lines 94-108)\<close>

definition candidates :: "string list" where
  "candidates = [''river_discharge_in_the_last_24_hours'', ''dis24'', ''dis'']"

text \<open>
  The loop over the candidates. The result carries the line the function prints, the
  observable signal of which branch was taken.
\<close>

fun choose_loop :: "string list \<Rightarrow> dataset \<Rightarrow> (string \<times> data_array) option" where
  "choose_loop [] ds = None"
| "choose_loop (name # rest) ds =
     (case map_of (data_vars ds) name of
        Some v \<Rightarrow> Some (''[INFO] Using variable: '' @ name, v)
      | None \<Rightarrow> choose_loop rest ds)"

definition choose_variable :: "dataset \<Rightarrow> error + (string \<times> data_array)" where
  "choose_variable ds =
     (case choose_loop candidates ds of
        Some r \<Rightarrow> Inr r
      | None \<Rightarrow>
          and_then (getitem (map fst (data_vars ds)) 0) (\<lambda>fallback.
            case map_of (data_vars ds) fallback of
              None \<Rightarrow> Inl (KeyError fallback)
            | Some v \<Rightarrow> Inr (''[WARN] Using fallback variable: '' @ fallback, v)))"

section \<open>Region boundary\<close>

text \<open>
  \<open>GIA_LAI_POLYGON\<close> is a Shapely polygon: an exterior ring and its holes, each a closed
  list of \<open>(longitude, latitude)\<close> vertices. Shapely is a library, not code of the
  repository; \<open>polygon.contains(Point(x, y))\<close> is modelled after its documented meaning
  (the DE-9IM predicate: the point lies in the interior of the polygon), computed as GEOS
  computes it, by locating the point against each ring with a ray-crossing count.
\<close>

type_synonym point = "real \<times> real"

datatype location = Interior | Boundary | Exterior

record polygon =
  shell :: "point list"
  holes :: "point list list"

text \<open>
  The orientation of \<open>q\<close> with respect to the directed segment from \<open>p1\<close> to \<open>p2\<close>:
  1 when \<open>q\<close> is to its left (counter-clockwise), -1 to its right, 0 when collinear.
\<close>

definition orientation_index :: "point \<Rightarrow> point \<Rightarrow> point \<Rightarrow> int" where
  "orientation_index p1 p2 q =
     (let det = (fst p2 - fst p1) * (snd q - snd p1) - (snd p2 - snd p1) * (fst q - fst p1)
      in if det > 0 then 1 else if det < 0 then - 1 else 0)"

text \<open>
  One segment of the ring against the horizontal ray from \<open>p\<close> to the right: the new
  crossing count, and whether \<open>p\<close> was found on the segment.
\<close>

definition count_segment :: "point \<Rightarrow> point \<Rightarrow> point \<Rightarrow> nat \<Rightarrow> nat \<times> bool" where
  "count_segment p p1 p2 crossing_count =
     (if fst p1 < fst p \<and> fst p2 < fst p then (crossing_count, False)
      else if fst p = fst p2 \<and> snd p = snd p2 then (crossing_count, True)
      else if snd p1 = snd p \<and> snd p2 = snd p then
        (crossing_count, min (fst p1) (fst p2) \<le> fst p \<and> fst p \<le> max (fst p1) (fst p2))
      else if (snd p1 > snd p \<and> snd p2 \<le> snd p) \<or> (snd p2 > snd p \<and> snd p1 \<le> snd p) then
        (let sign = orientation_index p1 p2 p in
         if sign = 0 then (crossing_count, True)
         else if (if snd p2 < snd p1 then - sign else sign) > 0
           then (crossing_count + 1, False)
           else (crossing_count, False))
      else (crossing_count, False))"

fun count_ring :: "point \<Rightarrow> point list \<Rightarrow> nat \<Rightarrow> location" where
  "count_ring p (p1 # p2 # rest) crossing_count =
     (case count_segment p p1 p2 crossing_count of
        (c, is_point_on_segment) \<Rightarrow>
          if is_point_on_segment then Boundary else count_ring p (p2 # rest) c)"
| "count_ring p ring crossing_count =
     (if crossing_count mod 2 = 1 then Interior else Exterior)"

definition locate_in_ring :: "point \<Rightarrow> point list \<Rightarrow> location" where
  "locate_in_ring p ring = count_ring p ring 0"

definition locate_in_polygon :: "point \<Rightarrow> polygon \<Rightarrow> location" where
  "locate_in_polygon p poly =
     (case locate_in_ring p (shell poly) of
        Interior \<Rightarrow>
          (if list_ex (\<lambda>h. locate_in_ring p h = Boundary) (holes poly) then Boundary
           else if list_ex (\<lambda>h. locate_in_ring p h = Interior) (holes poly) then Exterior
           else Interior)
      | Boundary \<Rightarrow> Boundary
      | Exterior \<Rightarrow> Exterior)"

definition contains :: "polygon \<Rightarrow> point \<Rightarrow> bool" where
  "contains poly p = (locate_in_polygon p poly = Interior)"

text \<open>
  Independently of the locator: \<open>p\<close> lies on the closed segment from \<open>a\<close> to \<open>b\<close>, and on
  some segment of a ring.
\<close>

definition on_segment :: "point \<Rightarrow> point \<Rightarrow> point \<Rightarrow> bool" where
  "on_segment p a b =
     ((fst b - fst a) * (snd p - snd a) = (snd b - snd a) * (fst p - fst a) \<and>
      min (fst a) (fst b) \<le> fst p \<and> fst p \<le> max (fst a) (fst b) \<and>
      min (snd a) (snd b) \<le> snd p \<and> snd p \<le> max (snd a) (snd b))"

fun on_ring :: "point \<Rightarrow> point list \<Rightarrow> bool" where
  "on_ring p (a # b # rest) = (on_segment p a b \<or> on_ring p (b # rest))"
| "on_ring p ring = False"

section \<open>Dimension reduction (glofas.py, lines 169-189)\<close>

definition select_24h :: "data_array \<Rightarrow> error + data_array" where
  "select_24h var =
     (if ''step'' \<in> set (da_dims var) then
        (case da_step var of
           Some step_coord \<Rightarrow>
             (case sel_step var 24 of
                Inr data_24h \<Rightarrow> Inr data_24h
              | Inl e \<Rightarrow> isel var ''step'' 0)
         | None \<Rightarrow> isel var ''step'' 0)
      else Inr var)"

definition spatial_names :: "string list" where
  "spatial_names = [''latitude'', ''lat'', ''longitude'', ''lon'']"

text \<open>
  The loop of lines 184-189 runs over the dimensions \<open>data_max\<close> had before the loop,
  and reads each size in the array as it is by then.
\<close>

fun drop_singletons :: "string list \<Rightarrow> data_array \<Rightarrow> error + data_array" where
  "drop_singletons [] data_max = Inr data_max"
| "drop_singletons (d # rest) data_max =
     (if d \<in> set spatial_names then drop_singletons rest data_max
      else
        (case map_of (da_sizes data_max) d of
           None \<Rightarrow> Inl (KeyError d)
         | Some sz \<Rightarrow>
             if sz = 1 then
               (case isel data_max d 0 of
                  Inl e \<Rightarrow> Inl e
                | Inr reduced \<Rightarrow> drop_singletons rest reduced)
             else drop_singletons rest data_max))"

definition coord :: "dataset \<Rightarrow> string \<Rightarrow> error + real list" where
  "coord ds name =
     (case map_of (coords ds) name of None \<Rightarrow> Inl (KeyError name) | Some v \<Rightarrow> Inr v)"

section \<open>Polygons per grid cell (glofas.py, lines 210-266)\<close>

text \<open>
  The GeoJSON dictionaries are records, one field per key; a coordinate pair is the
  two-element list \<open>[longitude, latitude]\<close>.
\<close>

record geometry =
  geom_type :: string
  geom_coordinates :: "real list list list"

record properties =
  prop_discharge :: pyfloat
  prop_risk_level :: string
  prop_risk_color :: string

record feature =
  feat_type :: string
  feat_geometry :: geometry
  feat_properties :: properties

record feature_collection =
  fc_type :: string
  fc_features :: "feature list"

text \<open>
  \<open>round(x, 2)\<close> on a float: the decimal with two places nearest to the value, ties to
  the even one; a non-finite float is returned as it is.
\<close>

definition round_half_even :: "real \<Rightarrow> int" where
  "round_half_even y =
     (let f = \<lfloor>y\<rfloor>; r = y - of_int f
      in if r < 1 / 2 then f
         else if r > 1 / 2 then f + 1
         else if even f then f else f + 1)"

fun py_round2 :: "pyfloat \<Rightarrow> pyfloat" where
  "py_round2 (Fin x) = Fin (of_int (round_half_even (x * 100)) / 100)"
| "py_round2 v = v"

text \<open>\<open>values[i, j]\<close> on the array: it takes exactly two indices, each within its axis.\<close>

definition getitem2 :: "data_array \<Rightarrow> nat \<Rightarrow> nat \<Rightarrow> error + pyfloat" where
  "getitem2 a i j =
     (case da_sizes a of
        [(d0, n0), (d1, n1)] \<Rightarrow>
          (if i < n0 \<and> j < n1 then getitem (da_values a) (i * n1 + j) else Inl IndexError)
      | _ \<Rightarrow> Inl IndexError)"

text \<open>
  The body of the two loops for the pair \<open>(i, j)\<close>: \<open>Inr None\<close> where the source reaches
  a \<open>continue\<close>, \<open>Inr (Some feature)\<close> where it appends a feature.
\<close>

definition cell ::
  "polygon option \<Rightarrow> data_array \<Rightarrow> real list \<Rightarrow> real list \<Rightarrow>
   pyfloat \<Rightarrow> pyfloat \<Rightarrow> pyfloat \<Rightarrow> nat \<Rightarrow> nat \<Rightarrow> error + feature option" where
  "cell GIA_LAI_POLYGON vals lat lon q2 q5 q20 i j =
     and_then (getitem2 vals i j) (\<lambda>discharge.
       case classify_point discharge q2 q5 q20 of
         None \<Rightarrow> Inr None
       | Some (risk_level, risk_color) \<Rightarrow>
           and_then (getitem lon j) (\<lambda>lon_left.
           and_then (getitem lon (j + 1)) (\<lambda>lon_right.
           and_then (getitem lat i) (\<lambda>lat_top.
           and_then (getitem lat (i + 1)) (\<lambda>lat_bottom.
             if (case GIA_LAI_POLYGON of
                   None \<Rightarrow> False
                 | Some poly \<Rightarrow>
                     \<not> contains poly
                         (0.5 * (lon_left + lon_right), 0.5 * (lat_top + lat_bottom)))
             then Inr None
             else Inr (Some
               \<lparr>feat_type = ''Feature'',
                feat_geometry =
                  \<lparr>geom_type = ''Polygon'',
                   geom_coordinates =
                     [[[lon_left, lat_top],
                       [lon_right, lat_top],
                       [lon_right, lat_bottom],
                       [lon_left, lat_bottom],
                       [lon_left, lat_top]]]\<rparr>,
                feat_properties =
                  \<lparr>prop_discharge = py_round2 discharge,
                   prop_risk_level = risk_level,
                   prop_risk_color = risk_color\<rparr>\<rparr>))))))"

fun inner_loop ::
  "(nat \<Rightarrow> error + feature option) \<Rightarrow> nat list \<Rightarrow> feature list \<Rightarrow> error + feature list" where
  "inner_loop body [] features = Inr features"
| "inner_loop body (j # js) features =
     (case body j of
        Inl e \<Rightarrow> Inl e
      | Inr None \<Rightarrow> inner_loop body js features
      | Inr (Some feature) \<Rightarrow> inner_loop body js (features @ [feature]))"

fun outer_loop ::
  "(nat \<Rightarrow> nat \<Rightarrow> error + feature option) \<Rightarrow> nat list \<Rightarrow> nat list \<Rightarrow> feature list \<Rightarrow>
   error + feature list" where
  "outer_loop body [] js features = Inr features"
| "outer_loop body (i # rows) js features =
     (case inner_loop (body i) js features of
        Inl e \<Rightarrow> Inl e
      | Inr fs \<Rightarrow> outer_loop body rows js fs)"

text \<open>
  The features that the iteration \<open>(i, j)\<close> of the loops appends, under the thresholds
  computed from the field: one feature or none.
\<close>

definition cell_features ::
  "polygon option \<Rightarrow> data_array \<Rightarrow> real list \<Rightarrow> real list \<Rightarrow> nat \<Rightarrow> nat \<Rightarrow> feature list" where
  "cell_features GIA_LAI_POLYGON vals lat lon i j =
     (case compute_thresholds (da_values vals) of
        (q2, q5, q20) \<Rightarrow>
          (case cell GIA_LAI_POLYGON vals lat lon q2 q5 q20 i j of
             Inr (Some feature) \<Rightarrow> [feature]
           | _ \<Rightarrow> []))"

text \<open>
  Lines 210-266: what \<open>grib_to_geojson\<close> does with the two-dimensional field, the two
  coordinate arrays and the boundary once the rank check has passed.
\<close>

definition field_to_geojson ::
  "polygon option \<Rightarrow> data_array \<Rightarrow> real list \<Rightarrow> real list \<Rightarrow> error + feature_collection" where
  "field_to_geojson GIA_LAI_POLYGON vals lat lon =
     (case compute_thresholds (da_values vals) of
        (q2, q5, q20) \<Rightarrow>
          (let n_lat = int (length lat);
               n_lon = int (length lon)
           in and_then
                (outer_loop (cell GIA_LAI_POLYGON vals lat lon q2 q5 q20)
                   (py_range (n_lat - 1)) (py_range (n_lon - 1)) [])
                (\<lambda>features.
                   Inr \<lparr>fc_type = ''FeatureCollection'', fc_features = features\<rparr>)))"

section \<open>The pipeline (glofas.py, lines 153-266)\<close>

text \<open>
  The field after lead-time selection and the dropping of singleton dimensions
  (lines 167-189), when variable selection and both steps succeed.
\<close>

definition reduce_field :: "dataset \<Rightarrow> error + data_array" where
  "reduce_field ds =
     and_then (choose_variable ds) (\<lambda>(printed, var).
     and_then (select_24h var) (\<lambda>data_24h.
       drop_singletons (da_dims data_24h) data_24h))"

text \<open>
  \<open>grib_to_geojson\<close>, from the opened dataset \<open>ds\<close> on; the module-level
  \<open>GIA_LAI_POLYGON\<close> (\<open>None\<close> when the boundary file is absent) is its first argument.
\<close>

definition lat_name :: "data_array \<Rightarrow> string" where
  "lat_name data_max =
     (if ''latitude'' \<in> set (da_dims data_max) then ''latitude'' else ''lat'')"

definition lon_name :: "data_array \<Rightarrow> string" where
  "lon_name data_max =
     (if ''longitude'' \<in> set (da_dims data_max) then ''longitude'' else ''lon'')"

definition grib_to_geojson :: "polygon option \<Rightarrow> dataset \<Rightarrow> error + feature_collection" where
  "grib_to_geojson GIA_LAI_POLYGON ds =
     and_then (reduce_field ds) (\<lambda>data_max.
     and_then (coord ds (lat_name data_max)) (\<lambda>lat.
     and_then (coord ds (lon_name data_max)) (\<lambda>lon.
       if ndim data_max \<noteq> 2 then Inl (RuntimeError (da_shape data_max))
       else field_to_geojson GIA_LAI_POLYGON data_max lat lon)))"

section \<open>Example inputs\<close>

text \<open>
  A cube with one listed variable over \<open>(number, step, latitude, longitude)\<close> with a
  single ensemble member and the lead times 12 and 24 hours; the values at 24 hours are
  5, 6, 7, 8.
\<close>

definition cube_var :: data_array where
  "cube_var =
     \<lparr>da_sizes = [(''number'', 1), (''step'', 2), (''latitude'', 2), (''longitude'', 2)],
      da_step = Some [12, 24],
      da_values = [Fin 1, Fin 2, Fin 3, Fin 4, Fin 5, Fin 6, Fin 7, Fin 8]\<rparr>"

definition cube :: dataset where
  "cube =
     \<lparr>data_vars = [(''dis24'', cube_var)],
      coords = [(''latitude'', [15, 14]), (''longitude'', [107, 108])]\<rparr>"

text \<open>The same cube with two ensemble members: the member axis is not dropped.\<close>

definition cube3_var :: data_array where
  "cube3_var =
     \<lparr>da_sizes = [(''number'', 2), (''step'', 2), (''latitude'', 2), (''longitude'', 2)],
      da_step = Some [12, 24],
      da_values =
        [Fin 1, Fin 2, Fin 3, Fin 4, Fin 5, Fin 6, Fin 7, Fin 8,
         Fin 9, Fin 10, Fin 11, Fin 12, Fin 13, Fin 14, Fin 15, Fin 16]\<rparr>"

definition cube3 :: dataset where
  "cube3 =
     \<lparr>data_vars = [(''dis24'', cube3_var)],
      coords = [(''latitude'', [15, 14]), (''longitude'', [107, 108])]\<rparr>"

text \<open>
  The end-to-end example: the field \<open>[[0.5, 12.0], [3.0, 0.1]]\<close> over the latitudes
  \<open>[15.0, 14.9]\<close> and the longitudes \<open>[107.0, 107.1]\<close>. Each decimal literal stands for
  the rational it denotes.
\<close>

definition example_var :: data_array where
  "example_var =
     \<lparr>da_sizes = [(''latitude'', 2), (''longitude'', 2)],
      da_step = None,
      da_values = [Fin 0.5, Fin 12, Fin 3, Fin 0.1]\<rparr>"

definition example_cube :: dataset where
  "example_cube =
     \<lparr>data_vars = [(''dis24'', example_var)],
      coords = [(''latitude'', [15, 14.9]), (''longitude'', [107, 107.1])]\<rparr>"

text \<open>
  A field with a zero, a negative value and a NaN at known nodes, over three latitudes
  and three longitudes: the four cells take the nodes with the values 0, 4.126, NaN
  and -1.
\<close>

definition injected_var :: data_array where
  "injected_var =
     \<lparr>da_sizes = [(''latitude'', 3), (''longitude'', 3)],
      da_step = None,
      da_values = [Fin 0, Fin 4.126, Fin 9,
                   NaN, Fin (- 1), Fin 9,
                   Fin 9, Fin 9, Fin 9]\<rparr>"

text \<open>The boundary of the examples: the square from (107, 14) to (108, 15), no hole.\<close>

definition square :: polygon where
  "square = \<lparr>shell = [(107, 14), (108, 14), (108, 15), (107, 15), (107, 14)], holes = []\<rparr>"

text \<open>
  A field of one cell over the latitudes \<open>[15, 14]\<close> and the longitudes
  \<open>[106.5, 107.5]\<close>: the centre of the cell, (107, 14.5), lies on the left edge of the
  square.
\<close>

definition edge_var :: data_array where
  "edge_var =
     \<lparr>da_sizes = [(''latitude'', 2), (''longitude'', 2)],
      da_step = None,
      da_values = [Fin 3, Fin 3, Fin 3, Fin 3]\<rparr>"

text \<open>A cube whose field has a single latitude: one row of nodes, no cell.\<close>

definition row_var :: data_array where
  "row_var =
     \<lparr>da_sizes = [(''latitude'', 1), (''longitude'', 2)],
      da_step = None,
      da_values = [Fin 3, Fin 4]\<rparr>"

definition row_cube :: dataset where
  "row_cube =
     \<lparr>data_vars = [(''dis24'', row_var)],
      coords = [(''latitude'', [15]), (''longitude'', [107, 108])]\<rparr>"

text \<open>A cube none of whose variables has a name of the candidate list.\<close>

definition unlisted_cube :: dataset where
  "unlisted_cube =
     \<lparr>data_vars = [(''discharge'', cube_var), (''runoff'', cube3_var)],
      coords = []\<rparr>"

section \<open>Sequencing of results\<close>

lemma and_then_Inr_iff:
  "(and_then r f = Inr y) = (\<exists>x. r = Inr x \<and> f x = Inr y)"
  by (cases r) (auto simp: and_then_def)

lemma and_then_Inl_iff:
  "(and_then r f = Inl e) = (r = Inl e \<or> (\<exists>x. r = Inr x \<and> f x = Inl e))"
  by (cases r) (auto simp: and_then_def)

lemma and_then_simps [simp]:
  "and_then (Inl e) f = Inl e" "and_then (Inr x) f = f x"
  by (simp_all add: and_then_def)

section \<open>Properties of the classifier and the threshold engine\<close>

lemma positive_filter: "map Fin (positive vs) = filter positive_mask vs"
  by (induction vs rule: positive.induct) (auto simp: positive_mask_def)

lemma positive_pos: "x \<in> set (positive vs) \<Longrightarrow> 0 < x"
  by (induction vs rule: positive.induct) (auto simp: positive_mask_def fgt_def split: if_splits)

text \<open>
  Claim C6. For a finite, strictly positive discharge \<open>v\<close> and any thresholds,
  \<open>classify_point\<close> answers tier 20 (purple) when \<open>v \<ge> q20\<close>, else tier 5 (red) when
  \<open>v \<ge> q5\<close>, else tier 2 (orange) when \<open>v \<ge> q2\<close>, else tier 1 (gray); a value equal to
  a threshold gets the higher tier; a non-finite or non-positive value gets no
  classification.
\<close>

theorem classify_point_tiers:
  "(isfinite v \<and> fgt v (Fin 0) \<and> fge v q20 \<longrightarrow>
      classify_point v q2 q5 q20 = Some (''20'', ''purple'')) \<and>
   (isfinite v \<and> fgt v (Fin 0) \<and> \<not> fge v q20 \<and> fge v q5 \<longrightarrow>
      classify_point v q2 q5 q20 = Some (''5'', ''red'')) \<and>
   (isfinite v \<and> fgt v (Fin 0) \<and> \<not> fge v q20 \<and> \<not> fge v q5 \<and> fge v q2 \<longrightarrow>
      classify_point v q2 q5 q20 = Some (''2'', ''orange'')) \<and>
   (isfinite v \<and> fgt v (Fin 0) \<and> \<not> fge v q20 \<and> \<not> fge v q5 \<and> \<not> fge v q2 \<longrightarrow>
      classify_point v q2 q5 q20 = Some (''1'', ''gray'')) \<and>
   (\<not> isfinite v \<or> fle v (Fin 0) \<longrightarrow> classify_point v q2 q5 q20 = None) \<and>
   (isfinite v \<and> fgt v (Fin 0) \<longrightarrow>
      classify_point v q2 q5 v = Some (''20'', ''purple''))"
  by (cases v) (auto simp: classify_point_def fgt_def fge_def)

theorem classify_point_tiers_witness:
  "classify_point (Fin 7) (Fin 1) (Fin 5) (Fin 7) = Some (''20'', ''purple'') \<and>
   classify_point (Fin 5) (Fin 1) (Fin 5) (Fin 7) = Some (''5'', ''red'') \<and>
   classify_point (Fin 1) (Fin 1) (Fin 5) (Fin 7) = Some (''2'', ''orange'') \<and>
   classify_point (Fin 0.5) (Fin 1) (Fin 5) (Fin 7) = Some (''1'', ''gray'') \<and>
   classify_point (Fin 0) (Fin 1) (Fin 5) (Fin 7) = None \<and>
   classify_point NaN (Fin 1) (Fin 5) (Fin 7) = None \<and>
   classify_point PInf (Fin 1) (Fin 5) (Fin 7) = None"
  using classify_point_tiers [of "Fin 7" "Fin 7" "Fin 1" "Fin 5"]
    classify_point_tiers [of "Fin 5" "Fin 7" "Fin 1" "Fin 5"]
    classify_point_tiers [of "Fin 1" "Fin 7" "Fin 1" "Fin 5"]
    classify_point_tiers [of "Fin 0.5" "Fin 7" "Fin 1" "Fin 5"]
    classify_point_tiers [of "Fin 0" "Fin 7" "Fin 1" "Fin 5"]
    classify_point_tiers [of "NaN" "Fin 7" "Fin 1" "Fin 5"]
    classify_point_tiers [of "PInf" "Fin 7" "Fin 1" "Fin 5"]
  by (simp add: fgt_def fge_def)

text \<open>
  Claim C7. \<open>compute_thresholds\<close> is total: on every array it returns three finite
  floats. When no entry is finite and strictly positive they are the defaults
  \<open>(1.0, 5.0, 10.0)\<close>; otherwise they are the three quantiles of the filtered entries,
  and two arrays with the same filtered entries get the same thresholds.
\<close>

theorem compute_thresholds_total:
  "(filter positive_mask vals = [] \<longrightarrow> compute_thresholds vals = (Fin 1, Fin 5, Fin 10)) \<and>
   (filter positive_mask vals \<noteq> [] \<longrightarrow>
      compute_thresholds vals =
        (Fin (np_quantile (positive vals) (55 / 100)),
         Fin (np_quantile (positive vals) (85 / 100)),
         Fin (np_quantile (positive vals) (98 / 100)))) \<and>
   (filter positive_mask vals = filter positive_mask vals' \<longrightarrow>
      compute_thresholds vals = compute_thresholds vals') \<and>
   (\<exists>a b c. compute_thresholds vals = (Fin a, Fin b, Fin c))"
proof -
  have e: "(filter positive_mask vals = []) = (positive vals = [])"
    using positive_filter [of vals] by (metis map_is_Nil_conv)
  have i: "positive vals = positive vals'"
    if "filter positive_mask vals = filter positive_mask vals'"
  proof -
    have "map Fin (positive vals) = map Fin (positive vals')"
      using that by (simp add: positive_filter)
    then show ?thesis
      by (simp add: inj_on_def inj_map_eq_map [unfolded inj_on_def])
  qed
  show ?thesis
    using e i by (auto simp: compute_thresholds_def Let_def)
qed

theorem compute_thresholds_total_witness:
  "compute_thresholds [NaN, NaN] = (Fin 1, Fin 5, Fin 10) \<and>
   compute_thresholds [Fin 0, Fin 0] = (Fin 1, Fin 5, Fin 10) \<and>
   compute_thresholds [Fin (- 3), NInf] = (Fin 1, Fin 5, Fin 10) \<and>
   compute_thresholds [] = (Fin 1, Fin 5, Fin 10) \<and>
   compute_thresholds [Fin 4, NaN, Fin (- 1), PInf] = compute_thresholds [Fin 4] \<and>
   compute_thresholds [Fin 4, NaN, Fin (- 1), PInf] = (Fin 4, Fin 4, Fin 4)"
  using compute_thresholds_total [of "[NaN, NaN]"]
    compute_thresholds_total [of "[Fin 0, Fin 0]"]
    compute_thresholds_total [of "[Fin (- 3), NInf]"]
    compute_thresholds_total [of "[]"]
    compute_thresholds_total [of "[Fin 4, NaN, Fin (- 1), PInf]" "[Fin 4]"]
    compute_thresholds_total [of "[Fin 4]"]
  by (simp add: positive_mask_def fgt_def np_quantile_def lerp_def)

section \<open>Properties of the variable selector\<close>

text \<open>
  Claim C9. \<open>choose_variable\<close> returns the variable of the first candidate name, in the
  order \<open>river_discharge_in_the_last_24_hours\<close>, \<open>dis24\<close>, \<open>dis\<close>, that the cube declares;
  when the cube declares none of them, it returns the first declared variable and prints
  the fallback warning; it fails exactly when the cube declares no variable.
\<close>

theorem choose_variable_priority:
  "(map_of (data_vars ds) ''river_discharge_in_the_last_24_hours'' = Some v \<longrightarrow>
      choose_variable ds =
        Inr (''[INFO] Using variable: river_discharge_in_the_last_24_hours'', v)) \<and>
   (map_of (data_vars ds) ''river_discharge_in_the_last_24_hours'' = None \<and>
    map_of (data_vars ds) ''dis24'' = Some v \<longrightarrow>
      choose_variable ds = Inr (''[INFO] Using variable: dis24'', v)) \<and>
   (map_of (data_vars ds) ''river_discharge_in_the_last_24_hours'' = None \<and>
    map_of (data_vars ds) ''dis24'' = None \<and>
    map_of (data_vars ds) ''dis'' = Some v \<longrightarrow>
      choose_variable ds = Inr (''[INFO] Using variable: dis'', v)) \<and>
   (map_of (data_vars ds) ''river_discharge_in_the_last_24_hours'' = None \<and>
    map_of (data_vars ds) ''dis24'' = None \<and>
    map_of (data_vars ds) ''dis'' = None \<and>
    data_vars ds = (n, v) # rest \<longrightarrow>
      choose_variable ds = Inr (''[WARN] Using fallback variable: '' @ n, v)) \<and>
   ((\<exists>e. choose_variable ds = Inl e) = (data_vars ds = []))"
proof -
  have "\<exists>r. choose_variable ds = Inr r" if ne: "data_vars ds \<noteq> []"
  proof -
    obtain n v rest where "data_vars ds = (n, v) # rest"
      using ne by (cases "data_vars ds") auto
    then show ?thesis
      by (simp add: choose_variable_def getitem_def split: option.splits)
  qed
  moreover have "\<exists>e. choose_variable ds = Inl e" if "data_vars ds = []"
    using that by (simp add: choose_variable_def candidates_def getitem_def)
  ultimately have fails: "(\<exists>e. choose_variable ds = Inl e) = (data_vars ds = [])"
    by (metis Inl_Inr_False)
  have c1: "choose_variable ds =
        Inr (''[INFO] Using variable: river_discharge_in_the_last_24_hours'', v)"
    if "map_of (data_vars ds) ''river_discharge_in_the_last_24_hours'' = Some v"
    using that by (simp add: choose_variable_def candidates_def)
  have c2: "choose_variable ds = Inr (''[INFO] Using variable: dis24'', v)"
    if "map_of (data_vars ds) ''river_discharge_in_the_last_24_hours'' = None"
      "map_of (data_vars ds) ''dis24'' = Some v"
    using that by (simp add: choose_variable_def candidates_def)
  have c3: "choose_variable ds = Inr (''[INFO] Using variable: dis'', v)"
    if "map_of (data_vars ds) ''river_discharge_in_the_last_24_hours'' = None"
      "map_of (data_vars ds) ''dis24'' = None" "map_of (data_vars ds) ''dis'' = Some v"
    using that by (simp add: choose_variable_def candidates_def)
  have c4: "choose_variable ds = Inr (''[WARN] Using fallback variable: '' @ n, v)"
    if n: "map_of (data_vars ds) ''river_discharge_in_the_last_24_hours'' = None"
      "map_of (data_vars ds) ''dis24'' = None" "map_of (data_vars ds) ''dis'' = None"
      and d: "data_vars ds = (n, v) # rest"
  proof -
    have "choose_loop candidates ds = None"
      using n by (simp add: candidates_def)
    then show ?thesis
      using d by (simp add: choose_variable_def getitem_def)
  qed
  show ?thesis
    using c1 c2 c3 c4 fails by blast
qed

theorem choose_variable_priority_witness:
  "choose_variable cube = Inr (''[INFO] Using variable: dis24'', cube_var) \<and>
   choose_variable unlisted_cube = Inr (''[WARN] Using fallback variable: discharge'', cube_var) \<and>
   choose_variable \<lparr>data_vars = [], coords = []\<rparr> = Inl IndexError"
  using choose_variable_priority [of cube cube_var]
    choose_variable_priority [of unlisted_cube cube_var "''discharge''" "[(''runoff'', cube3_var)]"]
    choose_variable_priority [of "\<lparr>data_vars = [], coords = []\<rparr>"]
  by (auto simp: cube_def unlisted_cube_def choose_variable_def candidates_def getitem_def)

section \<open>Properties of the pipeline\<close>

lemma outer_loop_no_columns: "outer_loop body rows [] fs = Inr fs"
  by (induction rows) auto

text \<open>
  Claim C10. When the latitude array or the longitude array has fewer than two entries,
  the loops run no iteration: the feature collection is empty and nothing is raised,
  whatever the field's values and the boundary, both for the part of the pipeline after
  the rank check and for \<open>grib_to_geojson\<close> itself on a cube that reduces to the field.
\<close>

theorem short_axis_no_features:
  assumes "length lat < 2 \<or> length lon < 2"
  shows "field_to_geojson b vals lat lon =
           Inr \<lparr>fc_type = ''FeatureCollection'', fc_features = []\<rparr> \<and>
         (reduce_field ds = Inr vals \<and> ndim vals = 2 \<and>
          coord ds (lat_name vals) = Inr lat \<and> coord ds (lon_name vals) = Inr lon \<longrightarrow>
            grib_to_geojson b ds =
              Inr \<lparr>fc_type = ''FeatureCollection'', fc_features = []\<rparr>)"
proof -
  have "py_range (int (length lat) - 1) = [] \<or> py_range (int (length lon) - 1) = []"
    using assms by (auto simp: py_range_def)
  then have f: "field_to_geojson b vals lat lon =
           Inr \<lparr>fc_type = ''FeatureCollection'', fc_features = []\<rparr>"
    by (auto simp: field_to_geojson_def Let_def outer_loop_no_columns split: prod.splits)
  then show ?thesis
    by (auto simp: grib_to_geojson_def)
qed

lemma reduce_row_cube: "reduce_field row_cube = Inr row_var"
  by (simp add: reduce_field_def row_cube_def row_var_def choose_variable_def candidates_def
      select_24h_def da_dims_def spatial_names_def)

theorem short_axis_no_features_witness:
  "field_to_geojson None row_var [15] [107, 108] =
     Inr \<lparr>fc_type = ''FeatureCollection'', fc_features = []\<rparr> \<and>
   grib_to_geojson None row_cube =
     Inr \<lparr>fc_type = ''FeatureCollection'', fc_features = []\<rparr>"
  using short_axis_no_features [of "[15]" "[107, 108]" None row_var row_cube] reduce_row_cube
  by (simp add: row_var_def row_cube_def ndim_def coord_def lat_name_def lon_name_def da_dims_def)

lemma cell_error: "cell b vals lat lon q2 q5 q20 i j = Inl e \<Longrightarrow> e = IndexError"
  by (auto simp: cell_def and_then_Inl_iff getitem2_def getitem_def
      split: list.splits prod.splits if_splits option.splits)

lemma inner_loop_error:
  "inner_loop body js fs = Inl e \<Longrightarrow> \<exists>j\<in>set js. body j = Inl e"
  by (induction js arbitrary: fs) (auto split: sum.splits option.splits)

lemma outer_loop_error:
  "outer_loop body rows js fs = Inl e \<Longrightarrow> \<exists>i\<in>set rows. \<exists>j\<in>set js. body i j = Inl e"
proof (induction rows arbitrary: fs)
  case Nil
  then show ?case by simp
next
  case (Cons i rows)
  then show ?case
    by (auto split: sum.splits dest: inner_loop_error)
qed

lemma field_to_geojson_error:
  "field_to_geojson b vals lat lon = Inl e \<Longrightarrow> e = IndexError"
  by (auto simp: field_to_geojson_def Let_def and_then_Inl_iff split: prod.splits
      dest!: outer_loop_error cell_error)

text \<open>
  The dimensions after the reduction: \<open>isel\<close> removes the one dimension it is given,
  the lead-time selection removes \<open>step\<close>, and the loop removes the non-spatial
  dimensions of size 1.
\<close>

lemma dim_index_split:
  "dim_index d sz = Some k \<Longrightarrow>
   k < length sz \<and> fst (sz ! k) = d \<and> d \<notin> fst ` set (take k sz)"
proof (induction sz arbitrary: k)
  case Nil
  then show ?case by simp
next
  case (Cons ns sz)
  obtain n s where ns: "ns = (n, s)" by (cases ns) auto
  show ?case
  proof (cases "n = d")
    case True
    with Cons.prems ns show ?thesis by simp
  next
    case False
    with Cons.prems ns obtain k' where k: "dim_index d sz = Some k'" "k = Suc k'"
      by auto
    from Cons.IH [OF k(1)] False ns k(2) show ?thesis by auto
  qed
qed

lemma dim_index_None: "dim_index d sz = None \<Longrightarrow> d \<notin> fst ` set sz"
  by (induction sz) (force split: if_splits)+

lemma filter_drop_dim:
  assumes "distinct (map fst sz)" "k < length sz" "fst (sz ! k) = d"
  shows "take k sz @ drop (Suc k) sz = filter (\<lambda>ns. fst ns \<noteq> d) sz"
proof -
  have sz: "sz = take k sz @ sz ! k # drop (Suc k) sz"
    using assms(2) by (simp add: id_take_nth_drop)
  have "distinct (map fst (take k sz @ sz ! k # drop (Suc k) sz))"
    using assms(1) sz by simp
  then have "d \<notin> fst ` set (take k sz)" "d \<notin> fst ` set (drop (Suc k) sz)"
    using assms(3) by auto
  then have "filter (\<lambda>ns. fst ns \<noteq> d) (take k sz) = take k sz"
    and "filter (\<lambda>ns. fst ns \<noteq> d) (drop (Suc k) sz) = drop (Suc k) sz"
    by (auto simp: filter_id_conv)
  then have "filter (\<lambda>ns. fst ns \<noteq> d) (take k sz @ sz ! k # drop (Suc k) sz) =
      take k sz @ drop (Suc k) sz"
    using assms(3) by simp
  with sz show ?thesis by simp
qed

lemma isel_sizes:
  assumes "distinct (da_dims da)" "isel da d idx = Inr r"
  shows "da_sizes r = filter (\<lambda>ns. fst ns \<noteq> d) (da_sizes da)"
proof -
  from assms(2) obtain k where k: "dim_index d (da_sizes da) = Some k"
    and r: "da_sizes r = take k (da_sizes da) @ drop (Suc k) (da_sizes da)"
    by (auto simp: isel_def Let_def split: option.splits if_splits)
  from dim_index_split [OF k] assms(1) r show ?thesis
    by (simp add: filter_drop_dim da_dims_def)
qed

lemma isel_singleton:
  assumes "map_of (da_sizes da) d = Some (Suc n)" "distinct (da_dims da)"
  shows "\<exists>r. isel da d 0 = Inr r"
proof -
  from assms have m: "(d, Suc n) \<in> set (da_sizes da)"
    by (simp add: da_dims_def)
  then obtain k where k: "dim_index d (da_sizes da) = Some k"
    using dim_index_None [of d "da_sizes da"] by (cases "dim_index d (da_sizes da)") force+
  from dim_index_split [OF k] have "k < length (da_sizes da)" "fst (da_sizes da ! k) = d"
    by auto
  then have "(d, snd (da_sizes da ! k)) \<in> set (da_sizes da)"
    by (metis nth_mem prod.collapse)
  with m assms(2) have "snd (da_sizes da ! k) = Suc n"
    by (metis da_dims_def eq_key_imp_eq_value)
  with k show ?thesis by (simp add: isel_def Let_def)
qed

lemma drop_singletons_sizes:
  assumes "distinct (da_dims dm)" "distinct ds" "set ds \<subseteq> set (da_dims dm)"
  shows "\<exists>r. drop_singletons ds dm = Inr r \<and>
     da_sizes r =
       filter (\<lambda>ns. \<not> (fst ns \<in> set ds \<and> fst ns \<notin> set spatial_names \<and> snd ns = 1))
         (da_sizes dm)"
  using assms
proof (induction ds arbitrary: dm)
  case Nil
  then show ?case by simp
next
  case (Cons d ds)
  let ?P = "\<lambda>ds ns. \<not> (fst ns \<in> set ds \<and> fst ns \<notin> set spatial_names \<and> snd ns = (1::nat))"
  from Cons.prems have d: "d \<in> set (da_dims dm)" and nd: "d \<notin> set ds"
    and ds: "distinct ds" "set ds \<subseteq> set (da_dims dm)" by auto
  from d Cons.prems(1) obtain sz where sz: "map_of (da_sizes dm) d = Some sz"
    by (auto simp: da_dims_def dest: weak_map_of_SomeI)
  have m: "(d, sz) \<in> set (da_sizes dm)"
    using sz by (rule map_of_SomeD)
  have uniq: "snd ns = sz" if "ns \<in> set (da_sizes dm)" "fst ns = d" for ns
    using that m Cons.prems(1) by (metis da_dims_def eq_key_imp_eq_value prod.collapse)
  show ?case
  proof (cases "d \<in> set spatial_names")
    case True
    from Cons.IH [OF Cons.prems(1) ds] obtain r where
      r: "drop_singletons ds dm = Inr r" "da_sizes r = filter (?P ds) (da_sizes dm)" by blast
    have "filter (?P ds) (da_sizes dm) = filter (?P (d # ds)) (da_sizes dm)"
      using True by (intro filter_cong) auto
    with r True show ?thesis by simp
  next
    case ns: False
    show ?thesis
    proof (cases "sz = 1")
      case False
      from Cons.IH [OF Cons.prems(1) ds] obtain r where
        r: "drop_singletons ds dm = Inr r" "da_sizes r = filter (?P ds) (da_sizes dm)" by blast
      have "filter (?P ds) (da_sizes dm) = filter (?P (d # ds)) (da_sizes dm)"
        using False uniq by (intro filter_cong) auto
      with r ns sz False show ?thesis by simp
    next
      case True
      with sz isel_singleton [of dm d 0] Cons.prems(1) obtain red where
        red: "isel dm d 0 = Inr red" by auto
      from isel_sizes [OF Cons.prems(1) red]
      have rs: "da_sizes red = filter (\<lambda>ns. fst ns \<noteq> d) (da_sizes dm)" .
      have dr: "distinct (da_dims red)"
        using Cons.prems(1) rs by (simp add: da_dims_def distinct_map_filter)
      have sr: "set ds \<subseteq> set (da_dims red)"
        using ds(2) nd rs by (auto simp: da_dims_def)
      from Cons.IH [OF dr ds(1) sr] obtain r where
        r: "drop_singletons ds red = Inr r" "da_sizes r = filter (?P ds) (da_sizes red)" by blast
      have "filter (?P ds) (filter (\<lambda>ns. fst ns \<noteq> d) (da_sizes dm)) =
            filter (?P (d # ds)) (da_sizes dm)"
        unfolding filter_filter using True uniq ns by (intro filter_cong) auto
      with r rs red ns sz True show ?thesis by simp
    qed
  qed
qed

lemma select_24h_sizes:
  assumes "distinct (da_dims var)" "select_24h var = Inr d24"
  shows "da_sizes d24 = filter (\<lambda>ns. fst ns \<noteq> ''step'') (da_sizes var)"
proof (cases "''step'' \<in> set (da_dims var)")
  case False
  then have "filter (\<lambda>ns. fst ns \<noteq> ''step'') (da_sizes var) = da_sizes var"
    by (force simp: filter_id_conv da_dims_def)
  with False assms(2) show ?thesis by (simp add: select_24h_def)
next
  case True
  with assms(2) obtain k where "isel var ''step'' k = Inr d24"
    by (auto simp: select_24h_def sel_step_def split: option.splits sum.splits)
  from isel_sizes [OF assms(1) this] show ?thesis .
qed

lemma reduce_field_sizes:
  assumes c: "choose_variable ds = Inr (printed, var)" and d: "distinct (da_dims var)"
    and r: "reduce_field ds = Inr data_max"
  shows "da_sizes data_max =
     filter (\<lambda>ns. fst ns \<noteq> ''step'' \<and> (fst ns \<in> set spatial_names \<or> snd ns \<noteq> 1))
       (da_sizes var)"
proof -
  from c r obtain d24 where s: "select_24h var = Inr d24"
    and dr: "drop_singletons (da_dims d24) d24 = Inr data_max"
    by (auto simp: reduce_field_def and_then_Inr_iff)
  note s24 = select_24h_sizes [OF d s]
  have d24: "distinct (da_dims d24)"
    using d s24 by (simp add: da_dims_def distinct_map_filter)
  from drop_singletons_sizes [OF d24 d24 subset_refl] dr
  have "da_sizes data_max =
      filter (\<lambda>ns. \<not> (fst ns \<in> set (da_dims d24) \<and> fst ns \<notin> set spatial_names \<and> snd ns = 1))
        (da_sizes d24)" by simp
  also have "\<dots> = filter (\<lambda>ns. fst ns \<in> set spatial_names \<or> snd ns \<noteq> 1) (da_sizes d24)"
    by (intro filter_cong) (auto simp: da_dims_def)
  also have "\<dots> = filter (\<lambda>ns. fst ns \<noteq> ''step'' \<and> (fst ns \<in> set spatial_names \<or> snd ns \<noteq> 1))
       (da_sizes var)"
    unfolding s24 filter_filter by (intro filter_cong) auto
  finally show ?thesis .
qed

text \<open>
  Claim C8. On a cube whose reduction yields a field and whose latitude and longitude
  coordinates are found under the resolved names, \<open>grib_to_geojson\<close> raises the shape
  error exactly when the reduced field is not two-dimensional; when it is, the result is
  that of the polygonizer on the field, and no shape error is raised there. The reduced
  field keeps, of the dimensions of the selected variable (distinct names), those other
  than \<open>step\<close> that are spatial or not of size 1.
\<close>

theorem shape_error_iff:
  assumes "reduce_field ds = Inr data_max"
    and "coord ds (lat_name data_max) = Inr lat"
    and "coord ds (lon_name data_max) = Inr lon"
  shows "((\<exists>shp. grib_to_geojson b ds = Inl (RuntimeError shp)) = (ndim data_max \<noteq> 2)) \<and>
         (ndim data_max \<noteq> 2 \<longrightarrow>
            grib_to_geojson b ds = Inl (RuntimeError (da_shape data_max))) \<and>
         (ndim data_max = 2 \<longrightarrow>
            grib_to_geojson b ds = field_to_geojson b data_max lat lon) \<and>
         (choose_variable ds = Inr (printed, var) \<and> distinct (da_dims var) \<longrightarrow>
            da_sizes data_max =
              filter (\<lambda>ns. fst ns \<noteq> ''step'' \<and> (fst ns \<in> set spatial_names \<or> snd ns \<noteq> 1))
                (da_sizes var))"
proof -
  have g: "grib_to_geojson b ds =
      (if ndim data_max \<noteq> 2 then Inl (RuntimeError (da_shape data_max))
       else field_to_geojson b data_max lat lon)"
    using assms by (simp add: grib_to_geojson_def)
  have "field_to_geojson b data_max lat lon \<noteq> Inl (RuntimeError shp)" for shp
    using field_to_geojson_error [of b data_max lat lon "RuntimeError shp"] by auto
  then show ?thesis
    using g reduce_field_sizes [OF _ _ assms(1), of printed var] by auto
qed

lemma reduce_cube:
  "reduce_field cube =
     Inr \<lparr>da_sizes = [(''latitude'', 2), (''longitude'', 2)], da_step = Some [12, 24],
          da_values = [Fin 5, Fin 6, Fin 7, Fin 8]\<rparr>"
  by (simp add: reduce_field_def cube_def cube_var_def choose_variable_def candidates_def
      select_24h_def sel_step_def isel_def da_dims_def spatial_names_def)

lemma reduce_cube3:
  "reduce_field cube3 =
     Inr \<lparr>da_sizes = [(''number'', 2), (''latitude'', 2), (''longitude'', 2)],
          da_step = Some [12, 24],
          da_values = [Fin 5, Fin 6, Fin 7, Fin 8, Fin 13, Fin 14, Fin 15, Fin 16]\<rparr>"
  by (simp add: reduce_field_def cube3_def cube3_var_def choose_variable_def candidates_def
      select_24h_def sel_step_def isel_def da_dims_def spatial_names_def upt_rec)

theorem shape_error_iff_witness:
  "(\<exists>shp. grib_to_geojson None cube3 = Inl (RuntimeError shp)) \<and>
   grib_to_geojson None cube3 = Inl (RuntimeError [2, 2, 2]) \<and>
   grib_to_geojson None cube =
     field_to_geojson None
       \<lparr>da_sizes = [(''latitude'', 2), (''longitude'', 2)], da_step = Some [12, 24],
        da_values = [Fin 5, Fin 6, Fin 7, Fin 8]\<rparr> [15, 14] [107, 108]"
  using shape_error_iff [OF reduce_cube3, of "[15, 14]" "[107, 108]" None]
    shape_error_iff [OF reduce_cube, of "[15, 14]" "[107, 108]" None]
  by (simp add: cube_def cube3_def coord_def lat_name_def lon_name_def da_dims_def ndim_def
      da_shape_def)

section \<open>Properties of the polygonizer\<close>

lemma inner_loop_Inr:
  "inner_loop body js fs = Inr out \<Longrightarrow>
   out = fs @ concat (map (\<lambda>j. case body j of Inr (Some f) \<Rightarrow> [f] | _ \<Rightarrow> []) js)"
proof (induction js arbitrary: fs)
  case Nil
  then show ?case by simp
next
  case (Cons j js)
  show ?case
  proof (cases "body j")
    case (Inl e)
    with Cons.prems show ?thesis by simp
  next
    case (Inr r)
    show ?thesis
    proof (cases r)
      case None
      with Inr Cons.prems have "inner_loop body js fs = Inr out" by simp
      from Cons.IH [OF this] Inr None show ?thesis by simp
    next
      case (Some f)
      with Inr Cons.prems have "inner_loop body js (fs @ [f]) = Inr out" by simp
      from Cons.IH [OF this] Inr Some show ?thesis by simp
    qed
  qed
qed

lemma outer_loop_Inr:
  "outer_loop body rows js fs = Inr out \<Longrightarrow>
   out = fs @ concat (map (\<lambda>i. concat (map (\<lambda>j.
           case body i j of Inr (Some f) \<Rightarrow> [f] | _ \<Rightarrow> []) js)) rows)"
proof (induction rows arbitrary: fs)
  case Nil
  then show ?case by simp
next
  case (Cons i rows)
  from Cons.prems obtain mid where
    m: "inner_loop (body i) js fs = Inr mid" and r: "outer_loop body rows js mid = Inr out"
    by (auto split: sum.splits)
  from inner_loop_Inr [OF m] Cons.IH [OF r] show ?case by simp
qed

lemma field_to_geojson_features:
  assumes "field_to_geojson b vals lat lon = Inr fc"
  shows "fc_features fc =
     concat (map (\<lambda>i. concat (map (\<lambda>j. cell_features b vals lat lon i j)
       [0..<length lon - 1])) [0..<length lat - 1])"
proof -
  obtain q2 q5 q20 where q: "compute_thresholds (da_values vals) = (q2, q5, q20)"
    by (cases "compute_thresholds (da_values vals)") auto
  have r: "py_range (int (length xs) - 1) = [0..<length xs - 1]" for xs :: "real list"
    by (simp add: py_range_def nat_diff_distrib')
  from assms q obtain fs where
    o: "outer_loop (cell b vals lat lon q2 q5 q20) [0..<length lat - 1] [0..<length lon - 1] [] = Inr fs"
    and fc: "fc = \<lparr>fc_type = ''FeatureCollection'', fc_features = fs\<rparr>"
    by (auto simp: field_to_geojson_def Let_def and_then_Inr_iff r)
  show ?thesis
    using outer_loop_Inr [OF o] fc q by (simp add: cell_features_def)
qed

lemma classify_point_None:
  "\<not> isfinite v \<or> fle v (Fin 0) \<Longrightarrow> classify_point v q2 q5 q20 = None"
  by (auto simp: classify_point_def)

text \<open>
  Claim C2. When the value at node \<open>(i, j)\<close> is non-finite or not positive, the iteration
  \<open>(i, j)\<close> reaches the \<open>continue\<close> of line 224 and appends nothing, with or without a
  boundary; the features of the collection are exactly those the other iterations
  append, in their order.
\<close>

theorem nonpositive_cell_omitted:
  assumes "getitem2 vals i j = Inr v" and "\<not> isfinite v \<or> fle v (Fin 0)"
  shows "cell b vals lat lon q2 q5 q20 i j = Inr None \<and>
         cell_features b vals lat lon i j = [] \<and>
         (field_to_geojson b vals lat lon = Inr fc \<longrightarrow>
            fc_features fc =
              concat (map (\<lambda>i'. concat (map (\<lambda>j'.
                  if i' = i \<and> j' = j then [] else cell_features b vals lat lon i' j')
                [0..<length lon - 1])) [0..<length lat - 1]))"
proof -
  have c: "cell b vals lat lon q2 q5 q20 i j = Inr None" for q2 q5 q20
    using assms by (simp add: cell_def classify_point_None)
  then have e: "cell_features b vals lat lon i j = []"
    by (simp add: cell_features_def split: prod.splits)
  have "(\<lambda>i'. concat (map (\<lambda>j'. cell_features b vals lat lon i' j') js)) =
        (\<lambda>i'. concat (map (\<lambda>j'.
           if i' = i \<and> j' = j then [] else cell_features b vals lat lon i' j') js))" for js
    using e by (intro ext arg_cong [where f = concat] map_cong) auto
  then show ?thesis
    using c e by (auto dest!: field_to_geojson_features)
qed

lemmas eval_defs =
  field_to_geojson_def cell_features_def cell_def getitem2_def getitem_def classify_point_def
  compute_thresholds_def positive_mask_def fgt_def fge_def np_quantile_def lerp_def
  py_range_def round_half_even_def contains_def locate_in_polygon_def locate_in_ring_def
  count_segment_def orientation_index_def Let_def

lemma injected_thresholds: "compute_thresholds (da_values injected_var) = (Fin 9, Fin 9, Fin 9)"
  by (simp add: injected_var_def eval_defs)

lemma injected_unclipped:
  "field_to_geojson None injected_var [15, 14.6, 14.2] [106.7, 107.2, 107.6] =
     Inr \<lparr>fc_type = ''FeatureCollection'',
          fc_features =
            [\<lparr>feat_type = ''Feature'',
              feat_geometry = \<lparr>geom_type = ''Polygon'',
                geom_coordinates =
                  [[[107.2, 15], [107.6, 15], [107.6, 14.6], [107.2, 14.6], [107.2, 15]]]\<rparr>,
              feat_properties = \<lparr>prop_discharge = Fin 4.13, prop_risk_level = ''1'',
                prop_risk_color = ''gray''\<rparr>\<rparr>]\<rparr>"
  by (simp add: field_to_geojson_def injected_thresholds)
    (simp add: injected_var_def eval_defs upt_rec)

lemma injected_clipped:
  "field_to_geojson (Some square) injected_var [15, 14.6, 14.2] [106.7, 107.2, 107.6] =
   field_to_geojson None injected_var [15, 14.6, 14.2] [106.7, 107.2, 107.6]"
  by (simp add: field_to_geojson_def injected_thresholds)
    (simp add: injected_var_def square_def eval_defs upt_rec)

theorem nonpositive_cell_omitted_witness:
  "getitem2 injected_var 0 0 = Inr (Fin 0) \<and>
   cell_features None injected_var [15, 14.6, 14.2] [106.7, 107.2, 107.6] 0 0 = [] \<and>
   getitem2 injected_var 1 0 = Inr NaN \<and>
   cell_features (Some square) injected_var [15, 14.6, 14.2] [106.7, 107.2, 107.6] 1 0 = [] \<and>
   getitem2 injected_var 1 1 = Inr (Fin (- 1)) \<and>
   cell_features None injected_var [15, 14.6, 14.2] [106.7, 107.2, 107.6] 1 1 = [] \<and>
   (\<exists>f. field_to_geojson None injected_var [15, 14.6, 14.2] [106.7, 107.2, 107.6] =
      Inr \<lparr>fc_type = ''FeatureCollection'', fc_features = [f]\<rparr> \<and>
      prop_discharge (feat_properties f) = Fin 4.13)"
  using
    nonpositive_cell_omitted [of injected_var 0 0 "Fin 0" None "[15, 14.6, 14.2]"
      "[106.7, 107.2, 107.6]"]
    nonpositive_cell_omitted [of injected_var 1 0 NaN "Some square" "[15, 14.6, 14.2]"
      "[106.7, 107.2, 107.6]"]
    nonpositive_cell_omitted [of injected_var 1 1 "Fin (- 1)" None "[15, 14.6, 14.2]"
      "[106.7, 107.2, 107.6]"]
    injected_unclipped
  by (simp add: injected_var_def getitem2_def getitem_def)

lemma cell_Some:
  assumes "cell b vals lat lon q2 q5 q20 i j = Inr (Some f)"
  shows "\<exists>v. getitem2 vals i j = Inr v \<and> i + 1 < length lat \<and> j + 1 < length lon \<and>
     classify_point v q2 q5 q20 =
       Some (prop_risk_level (feat_properties f), prop_risk_color (feat_properties f)) \<and>
     (case b of None \<Rightarrow> True
      | Some poly \<Rightarrow>
          contains poly (0.5 * (lon ! j + lon ! (j + 1)), 0.5 * (lat ! i + lat ! (i + 1)))) \<and>
     feat_type f = ''Feature'' \<and>
     geom_type (feat_geometry f) = ''Polygon'' \<and>
     geom_coordinates (feat_geometry f) =
       [[[lon ! j, lat ! i], [lon ! (j + 1), lat ! i], [lon ! (j + 1), lat ! (i + 1)],
         [lon ! j, lat ! (i + 1)], [lon ! j, lat ! i]]] \<and>
     prop_discharge (feat_properties f) = py_round2 v"
  using assms
  by (auto simp: cell_def and_then_Inr_iff getitem_def
      split: option.splits prod.splits if_splits)

lemma cell_features_Some:
  "f \<in> set (cell_features b vals lat lon i j) \<Longrightarrow>
   \<exists>q2 q5 q20. compute_thresholds (da_values vals) = (q2, q5, q20) \<and>
      cell b vals lat lon q2 q5 q20 i j = Inr (Some f)"
proof -
  assume a: "f \<in> set (cell_features b vals lat lon i j)"
  obtain q2 q5 q20 where q: "compute_thresholds (da_values vals) = (q2, q5, q20)"
    by (cases "compute_thresholds (da_values vals)") auto
  from a q have "cell b vals lat lon q2 q5 q20 i j = Inr (Some f)"
    by (simp add: cell_features_def split: sum.splits option.splits)
  with q show ?thesis by blast
qed

text \<open>
  Claim C5. A feature appended at the iteration \<open>(i, j)\<close> has one ring of five vertices,
  \<open>[lon[j], lat[i]]\<close>, \<open>[lon[j+1], lat[i]]\<close>, \<open>[lon[j+1], lat[i+1]]\<close>, \<open>[lon[j], lat[i+1]]\<close>
  and the first one again, longitude before latitude, and its discharge is the value at
  node \<open>(i, j)\<close> rounded to two decimals; every feature of the collection is appended at
  some iteration \<open>(i, j)\<close> within the loop bounds.
\<close>

theorem emitted_feature_shape:
  "(f \<in> set (cell_features b vals lat lon i j) \<longrightarrow>
      (\<exists>v. getitem2 vals i j = Inr v \<and> i + 1 < length lat \<and> j + 1 < length lon \<and>
         geom_type (feat_geometry f) = ''Polygon'' \<and>
         geom_coordinates (feat_geometry f) =
           [[[lon ! j, lat ! i], [lon ! (j + 1), lat ! i], [lon ! (j + 1), lat ! (i + 1)],
             [lon ! j, lat ! (i + 1)], [lon ! j, lat ! i]]] \<and>
         hd (hd (geom_coordinates (feat_geometry f))) =
           last (hd (geom_coordinates (feat_geometry f))) \<and>
         prop_discharge (feat_properties f) = py_round2 v)) \<and>
   (field_to_geojson b vals lat lon = Inr fc \<and> f \<in> set (fc_features fc) \<longrightarrow>
      (\<exists>i j. i < length lat - 1 \<and> j < length lon - 1 \<and>
         f \<in> set (cell_features b vals lat lon i j)))"
proof -
  have "\<exists>i j. i < length lat - 1 \<and> j < length lon - 1 \<and>
         f \<in> set (cell_features b vals lat lon i j)"
    if "field_to_geojson b vals lat lon = Inr fc" "f \<in> set (fc_features fc)"
    using that by (fastforce simp: field_to_geojson_features)
  moreover have "\<exists>v. getitem2 vals i j = Inr v \<and> i + 1 < length lat \<and> j + 1 < length lon \<and>
         geom_type (feat_geometry f) = ''Polygon'' \<and>
         geom_coordinates (feat_geometry f) =
           [[[lon ! j, lat ! i], [lon ! (j + 1), lat ! i], [lon ! (j + 1), lat ! (i + 1)],
             [lon ! j, lat ! (i + 1)], [lon ! j, lat ! i]]] \<and>
         hd (hd (geom_coordinates (feat_geometry f))) =
           last (hd (geom_coordinates (feat_geometry f))) \<and>
         prop_discharge (feat_properties f) = py_round2 v"
    if "f \<in> set (cell_features b vals lat lon i j)"
  proof -
    from cell_features_Some [OF that] obtain q2 q5 q20 where
      "cell b vals lat lon q2 q5 q20 i j = Inr (Some f)" by blast
    from cell_Some [OF this] show ?thesis by auto
  qed
  ultimately show ?thesis by blast
qed

lemma injected_cell_0_1:
  "cell_features None injected_var [15, 14.6, 14.2] [106.7, 107.2, 107.6] 0 1 =
     [\<lparr>feat_type = ''Feature'',
       feat_geometry = \<lparr>geom_type = ''Polygon'',
         geom_coordinates =
           [[[107.2, 15], [107.6, 15], [107.6, 14.6], [107.2, 14.6], [107.2, 15]]]\<rparr>,
       feat_properties = \<lparr>prop_discharge = Fin 4.13, prop_risk_level = ''1'',
         prop_risk_color = ''gray''\<rparr>\<rparr>]"
  by (simp add: cell_features_def injected_thresholds)
    (simp add: injected_var_def eval_defs)

theorem emitted_feature_shape_witness:
  "(\<exists>f. cell_features None injected_var [15, 14.6, 14.2] [106.7, 107.2, 107.6] 0 1 = [f] \<and>
      getitem2 injected_var 0 1 = Inr (Fin 4.126) \<and>
      geom_coordinates (feat_geometry f) =
        [[[107.2, 15], [107.6, 15], [107.6, 14.6], [107.2, 14.6], [107.2, 15]]] \<and>
      hd (hd (geom_coordinates (feat_geometry f))) =
        last (hd (geom_coordinates (feat_geometry f))) \<and>
      prop_discharge (feat_properties f) = py_round2 (Fin 4.126) \<and>
      py_round2 (Fin 4.126) = Fin 4.13)"
  using emitted_feature_shape [of
      "\<lparr>feat_type = ''Feature'',
       feat_geometry = \<lparr>geom_type = ''Polygon'',
         geom_coordinates =
           [[[107.2, 15], [107.6, 15], [107.6, 14.6], [107.2, 14.6], [107.2, 15]]]\<rparr>,
       feat_properties = \<lparr>prop_discharge = Fin 4.13, prop_risk_level = ''1'',
         prop_risk_color = ''gray''\<rparr>\<rparr>"
      None injected_var "[15, 14.6, 14.2]" "[106.7, 107.2, 107.6]" 0 1]
    injected_cell_0_1
  by (simp add: injected_var_def getitem2_def getitem_def round_half_even_def)

lemma example_thresholds:
  "compute_thresholds (da_values example_var) = (Fin 2.125, Fin 7.95, Fin 11.46)"
  by (simp add: example_var_def eval_defs)

lemma reduce_example_cube: "reduce_field example_cube = Inr example_var"
  by (simp add: reduce_field_def example_cube_def example_var_def choose_variable_def
      candidates_def select_24h_def da_dims_def spatial_names_def)

lemma example_field:
  "field_to_geojson None example_var [15, 14.9] [107, 107.1] =
     Inr \<lparr>fc_type = ''FeatureCollection'',
          fc_features =
            [\<lparr>feat_type = ''Feature'',
              feat_geometry = \<lparr>geom_type = ''Polygon'',
                geom_coordinates =
                  [[[107.0, 15.0], [107.1, 15.0], [107.1, 14.9], [107.0, 14.9],
                    [107.0, 15.0]]]\<rparr>,
              feat_properties = \<lparr>prop_discharge = Fin 0.5, prop_risk_level = ''1'',
                prop_risk_color = ''gray''\<rparr>\<rparr>]\<rparr>"
  by (simp add: field_to_geojson_def example_thresholds)
    (simp add: example_var_def eval_defs upt_rec)

text \<open>
  Claim C4. On the end-to-end example, unclipped, the filtered values are
  \<open>[0.5, 12.0, 3.0, 0.1]\<close>, the thresholds are their quantiles at 0.55, 0.85 and 0.98,
  that is 2.125, 7.95 and 11.46, and the pipeline emits exactly one feature: discharge
  0.5, the ring of the single cell, and tier 1 (gray), since 0.5 is below \<open>q2\<close>.
\<close>

theorem end_to_end_example:
  "positive (da_values example_var) = [0.5, 12.0, 3.0, 0.1] \<and>
   compute_thresholds (da_values example_var) =
     (Fin (np_quantile [0.5, 12.0, 3.0, 0.1] 0.55),
      Fin (np_quantile [0.5, 12.0, 3.0, 0.1] 0.85),
      Fin (np_quantile [0.5, 12.0, 3.0, 0.1] 0.98)) \<and>
   compute_thresholds (da_values example_var) = (Fin 2.125, Fin 7.95, Fin 11.46) \<and>
   grib_to_geojson None example_cube =
     Inr \<lparr>fc_type = ''FeatureCollection'',
          fc_features =
            [\<lparr>feat_type = ''Feature'',
              feat_geometry = \<lparr>geom_type = ''Polygon'',
                geom_coordinates =
                  [[[107.0, 15.0], [107.1, 15.0], [107.1, 14.9], [107.0, 14.9],
                    [107.0, 15.0]]]\<rparr>,
              feat_properties = \<lparr>prop_discharge = Fin 0.5, prop_risk_level = ''1'',
                prop_risk_color = ''gray''\<rparr>\<rparr>]\<rparr>"
proof -
  have p: "positive (da_values example_var) = [0.5, 12.0, 3.0, 0.1]"
    by (simp add: example_var_def positive_mask_def fgt_def)
  have q: "compute_thresholds (da_values example_var) =
     (Fin (np_quantile [0.5, 12.0, 3.0, 0.1] 0.55),
      Fin (np_quantile [0.5, 12.0, 3.0, 0.1] 0.85),
      Fin (np_quantile [0.5, 12.0, 3.0, 0.1] 0.98))"
    using p by (simp add: compute_thresholds_def Let_def)
  have g: "grib_to_geojson None example_cube =
      field_to_geojson None example_var [15, 14.9] [107, 107.1]"
    by (simp add: grib_to_geojson_def reduce_example_cube)
      (simp add: example_cube_def example_var_def coord_def lat_name_def lon_name_def
        da_dims_def ndim_def)
  show ?thesis
    using p q g example_thresholds example_field by simp
qed

section \<open>Order of the thresholds\<close>

lemma lerp_between:
  assumes "a \<le> b" "0 \<le> t" "t \<le> 1"
  shows "a \<le> lerp a b t" and "lerp a b t \<le> b"
proof -
  have "0 \<le> (b - a) * t"
    using assms by simp
  then show "a \<le> lerp a b t"
    by (simp add: lerp_def)
  have "(b - a) * t \<le> (b - a) * 1"
    using assms by (intro mult_left_mono) auto
  then show "lerp a b t \<le> b"
    by (simp add: lerp_def)
qed

lemma lerp_mono: "a \<le> b \<Longrightarrow> t1 \<le> t2 \<Longrightarrow> lerp a b t1 \<le> lerp a b t2"
  by (simp add: lerp_def mult_left_mono)

lemma floor_index:
  assumes "0 \<le> h" "h \<le> real (n - 1)"
  shows "real (nat \<lfloor>h\<rfloor>) \<le> h" and "h - real (nat \<lfloor>h\<rfloor>) < 1" and "nat \<lfloor>h\<rfloor> \<le> n - 1"
proof -
  have f: "0 \<le> \<lfloor>h\<rfloor>" using assms by simp
  then have r: "real (nat \<lfloor>h\<rfloor>) = of_int \<lfloor>h\<rfloor>" by simp
  show "real (nat \<lfloor>h\<rfloor>) \<le> h" using r by simp
  show "h - real (nat \<lfloor>h\<rfloor>) < 1" using r by linarith
  have "\<lfloor>h\<rfloor> \<le> \<lfloor>real (n - 1)\<rfloor>" using assms by (intro floor_mono)
  then have "\<lfloor>h\<rfloor> \<le> int (n - 1)" by simp
  then show "nat \<lfloor>h\<rfloor> \<le> n - 1" using f by linarith
qed

lemma interp_mono:
  fixes s :: "real list"
  assumes s: "sorted s" and ne: "s \<noteq> []"
    and h: "0 \<le> h1" "h1 \<le> h2" "h2 \<le> real (length s - 1)"
  shows "lerp (s ! nat \<lfloor>h1\<rfloor>) (s ! min (nat \<lfloor>h1\<rfloor> + 1) (length s - 1)) (h1 - real (nat \<lfloor>h1\<rfloor>))
       \<le> lerp (s ! nat \<lfloor>h2\<rfloor>) (s ! min (nat \<lfloor>h2\<rfloor> + 1) (length s - 1)) (h2 - real (nat \<lfloor>h2\<rfloor>))"
proof -
  let ?n = "length s"
  let ?l1 = "nat \<lfloor>h1\<rfloor>" and ?l2 = "nat \<lfloor>h2\<rfloor>"
  let ?u1 = "min (?l1 + 1) (?n - 1)" and ?u2 = "min (?l2 + 1) (?n - 1)"
  have n: "0 < ?n" using ne by simp
  have h1n: "h1 \<le> real (?n - 1)" using h by linarith
  have h20: "0 \<le> h2" using h by linarith
  note f1 = floor_index [OF h(1) h1n] and f2 = floor_index [OF h20 h(3)]
  have l12: "?l1 \<le> ?l2" using h by (intro nat_mono floor_mono)
  have u1: "?u1 < ?n" and u2: "?u2 < ?n" using n by linarith+
  have lu1: "?l1 \<le> ?u1" and lu2: "?l2 \<le> ?u2" using f1(3) f2(3) by linarith+
  have b1: "s ! ?l1 \<le> s ! ?u1"
    using s lu1 u1 by (rule sorted_nth_mono)
  have b2: "s ! ?l2 \<le> s ! ?u2"
    using s lu2 u2 by (rule sorted_nth_mono)
  show ?thesis
  proof (cases "?l1 = ?l2")
    case True
    have "h1 - real ?l1 \<le> h2 - real ?l2" using True h by simp
    from lerp_mono [OF b2 this] True show ?thesis by simp
  next
    case False
    then have lt: "?l1 + 1 \<le> ?l2" using l12 by linarith
    have "lerp (s ! ?l1) (s ! ?u1) (h1 - real ?l1) \<le> s ! ?u1"
      using b1 f1 by (intro lerp_between) auto
    also have "s ! ?u1 \<le> s ! ?l2"
    proof (rule sorted_nth_mono [OF s])
      show "?u1 \<le> ?l2" using lt by linarith
      show "?l2 < ?n" using f2(3) n by linarith
    qed
    also have "s ! ?l2 \<le> lerp (s ! ?l2) (s ! ?u2) (h2 - real ?l2)"
      using b2 f2 by (intro lerp_between) auto
    finally show ?thesis .
  qed
qed

lemma np_quantile_mono:
  assumes "xs \<noteq> []" "0 \<le> q1" "q1 \<le> q2" "q2 \<le> 1"
  shows "np_quantile xs q1 \<le> np_quantile xs q2"
proof -
  have "q1 * real (length (sort xs) - 1) \<le> q2 * real (length (sort xs) - 1)"
    using assms by (intro mult_right_mono) auto
  moreover have "q2 * real (length (sort xs) - 1) \<le> real (length (sort xs) - 1)"
    using assms by (simp add: mult_left_le_one_le)
  moreover have "0 \<le> q1 * real (length (sort xs) - 1)"
    using assms by simp
  moreover have "sort xs \<noteq> []" using assms by (metis length_sort length_0_conv)
  ultimately show ?thesis
    unfolding np_quantile_def Let_def
    by (intro interp_mono) auto
qed

lemma np_quantile_lower:
  assumes "xs \<noteq> []" "0 \<le> q" "q \<le> 1" "\<forall>x\<in>set xs. c \<le> x"
  shows "c \<le> np_quantile xs q"
proof -
  let ?s = "sort xs"
  let ?h = "q * real (length ?s - 1)"
  have n: "0 < length ?s" using assms by simp
  have h0: "0 \<le> ?h" using assms by simp
  have hn: "?h \<le> real (length ?s - 1)" using assms by (simp add: mult_left_le_one_le)
  note f = floor_index [OF h0 hn]
  have b: "?s ! nat \<lfloor>?h\<rfloor> \<le> ?s ! min (nat \<lfloor>?h\<rfloor> + 1) (length ?s - 1)"
  proof (rule sorted_nth_mono)
    show "sorted ?s" by simp
    show "nat \<lfloor>?h\<rfloor> \<le> min (nat \<lfloor>?h\<rfloor> + 1) (length ?s - 1)" using f(3) by linarith
    show "min (nat \<lfloor>?h\<rfloor> + 1) (length ?s - 1) < length ?s" using n by linarith
  qed
  have "?s ! nat \<lfloor>?h\<rfloor> \<in> set ?s"
    using n f(3) by (intro nth_mem) linarith
  then have "c \<le> ?s ! nat \<lfloor>?h\<rfloor>" using assms by simp
  also have "\<dots> \<le> np_quantile xs q"
    unfolding np_quantile_def Let_def using b f by (intro lerp_between) auto
  finally show ?thesis .
qed

text \<open>
  Claim C3. On every array the thresholds satisfy \<open>q2 \<le> q5 \<le> q20\<close> and none is
  negative: the defaults are ordered, and a quantile of the filtered values, which are
  positive, grows with its rank and is not below their minimum.
\<close>

theorem thresholds_ordered:
  "compute_thresholds vals = (q2, q5, q20) \<Longrightarrow>
   fle q2 q5 \<and> fle q5 q20 \<and> fle (Fin 0) q2 \<and> fle (Fin 0) q5 \<and> fle (Fin 0) q20"
proof -
  assume a: "compute_thresholds vals = (q2, q5, q20)"
  show ?thesis
  proof (cases "positive vals = []")
    case True
    with a show ?thesis by (auto simp: compute_thresholds_def)
  next
    case False
    have "\<forall>x\<in>set (positive vals). 0 \<le> x"
      using positive_pos by (auto intro: less_imp_le)
    from np_quantile_lower [OF False _ _ this, of "55 / 100"]
    have "0 \<le> np_quantile (positive vals) (55 / 100)" by simp
    moreover have "np_quantile (positive vals) (55 / 100) \<le> np_quantile (positive vals) (85 / 100)"
      using False by (intro np_quantile_mono) auto
    moreover have "np_quantile (positive vals) (85 / 100) \<le> np_quantile (positive vals) (98 / 100)"
      using False by (intro np_quantile_mono) auto
    ultimately show ?thesis
      using a False by (auto simp: compute_thresholds_def Let_def)
  qed
qed

theorem thresholds_ordered_witness:
  "compute_thresholds (da_values example_var) = (Fin 2.125, Fin 7.95, Fin 11.46) \<and>
   fle (Fin 2.125) (Fin 7.95) \<and> fle (Fin 7.95) (Fin 11.46) \<and> fle (Fin 0) (Fin 2.125) \<and>
   compute_thresholds [NaN, Fin 0] = (Fin 1, Fin 5, Fin 10) \<and>
   fle (Fin 1) (Fin 5) \<and> fle (Fin 5) (Fin 10) \<and> fle (Fin 0) (Fin 1)"
  using thresholds_ordered [OF example_thresholds]
    thresholds_ordered [of "[NaN, Fin 0]" "Fin 1" "Fin 5" "Fin 10"]
    example_thresholds
  by (simp add: compute_thresholds_def positive_mask_def fgt_def)

section \<open>Clipping against the region boundary\<close>

text \<open>
  A point on a segment of a closed ring is located on the boundary: the segment that
  ends at the point, or the one that holds it in its inside, reports it.
\<close>

lemma count_segment_flag:
  "snd (count_segment p a b c) = snd (count_segment p a b c')"
  by (simp add: count_segment_def Let_def)

lemma end_point_flag: "snd (count_segment p a p c)"
  by (simp add: count_segment_def)

lemma on_segment_flag:
  assumes on: "on_segment p a b" and pa: "p \<noteq> a"
  shows "snd (count_segment p a b c)"
proof -
  obtain px py ax ay bx "by" where [simp]: "p = (px, py)" "a = (ax, ay)" "b = (bx, by)"
    by (cases p, cases a, cases b) auto
  from on have col: "(bx - ax) * (py - ay) = (by - ay) * (px - ax)"
    and xr: "min ax bx \<le> px" "px \<le> max ax bx"
    and yr: "min ay by \<le> py" "py \<le> max ay by"
    by (simp_all add: on_segment_def)
  have left: "\<not> (ax < px \<and> bx < px)" using xr by linarith
  have sign: "orientation_index a b p = 0"
    using col by (simp add: orientation_index_def)
  show ?thesis
  proof (cases "px = bx \<and> py = by")
    case True
    then show ?thesis using left by (simp add: count_segment_def)
  next
    case nb: False
    show ?thesis
    proof (cases "ay = py \<and> by = py")
      case True
      then show ?thesis using left nb xr by (simp add: count_segment_def)
    next
      case nh: False
      have "py \<noteq> by"
      proof
        assume e: "py = by"
        with nh have "by - ay \<noteq> 0" by auto
        with col e have "px = bx" by simp
        with e nb show False by simp
      qed
      moreover have "py \<noteq> ay"
      proof
        assume e: "py = ay"
        with nh have "by - ay \<noteq> 0" by auto
        with col e have "px = ax" by simp
        with e pa show False by simp
      qed
      ultimately have "(ay > py \<and> by \<le> py) \<or> (by > py \<and> ay \<le> py)"
        using yr by linarith
      then show ?thesis
        using left nb nh sign by (auto simp: count_segment_def)
    qed
  qed
qed

lemma count_ring_flagged:
  assumes "snd (count_segment p a b 0)"
  shows "count_ring p (xs @ a # b # ys) c = Boundary"
proof (induction xs arbitrary: c)
  case Nil
  have "snd (count_segment p a b c)"
    using assms count_segment_flag [of p a b c 0] by simp
  then obtain c' where "count_segment p a b c = (c', True)"
    by (cases "count_segment p a b c") auto
  then show ?case by simp
next
  case (Cons x xs)
  obtain y rest where r: "xs @ a # b # ys = y # rest"
    by (cases xs) auto
  obtain c' f where s: "count_segment p x y c = (c', f)"
    by (cases "count_segment p x y c") auto
  show ?case
    using Cons.IH [of c'] r s by simp
qed

lemma on_ring_split:
  "on_ring p ring \<Longrightarrow> \<exists>xs a b ys. ring = xs @ a # b # ys \<and> on_segment p a b"
proof (induction p ring rule: on_ring.induct)
  case (1 p a b rest)
  show ?case
  proof (cases "on_segment p a b")
    case True
    then have "a # b # rest = [] @ a # b # rest \<and> on_segment p a b" by simp
    then show ?thesis by blast
  next
    case False
    with 1 obtain xs c d ys where "b # rest = xs @ c # d # ys" "on_segment p c d"
      by auto
    then have "a # b # rest = (a # xs) @ c # d # ys \<and> on_segment p c d" by simp
    then show ?thesis by blast
  qed
qed auto

lemma on_closed_ring_is_boundary:
  assumes on: "on_ring p ring" and closed: "hd ring = last ring"
  shows "locate_in_ring p ring = Boundary"
proof -
  from on_ring_split [OF on] obtain xs a b ys where
    ring: "ring = xs @ a # b # ys" and seg: "on_segment p a b" by blast
  show ?thesis
  proof (cases "p = a")
    case False
    from on_segment_flag [OF seg False] show ?thesis
      unfolding locate_in_ring_def ring by (rule count_ring_flagged)
  next
    case True
    have "\<exists>us x vs. ring = us @ x # p # vs"
    proof (cases xs rule: rev_cases)
      case (snoc us x)
      with ring True have "ring = us @ x # p # b # ys" by simp
      then show ?thesis by blast
    next
      case Nil
      with ring True closed have l: "last (b # ys) = p" by simp
      have "b # ys = butlast (b # ys) @ [p]"
        using l append_butlast_last_id [of "b # ys"] by simp
      with ring Nil True have r: "ring = (p # butlast (b # ys)) @ [p]" by simp
      have "p # butlast (b # ys) = butlast (p # butlast (b # ys)) @ [last (p # butlast (b # ys))]"
        using append_butlast_last_id [of "p # butlast (b # ys)"] by simp
      with r have "ring = butlast (p # butlast (b # ys)) @ last (p # butlast (b # ys)) # p # []"
        by (metis append.assoc append_Cons append_Nil)
      then show ?thesis by blast
    qed
    then obtain us x vs where r: "ring = us @ x # p # vs" by blast
    from end_point_flag [of p x 0] show ?thesis
      unfolding locate_in_ring_def r by (rule count_ring_flagged)
  qed
qed

lemma cell_clip:
  "cell (Some poly) vals lat lon q2 q5 q20 i j =
     (case cell None vals lat lon q2 q5 q20 i j of
        Inr (Some f) \<Rightarrow>
          if contains poly (0.5 * (lon ! j + lon ! (j + 1)), 0.5 * (lat ! i + lat ! (i + 1)))
          then Inr (Some f) else Inr None
      | r \<Rightarrow> r)"
proof (cases "getitem2 vals i j")
  case (Inl e)
  then show ?thesis by (simp add: cell_def)
next
  case (Inr v)
  show ?thesis
  proof (cases "classify_point v q2 q5 q20")
    case None
    with Inr show ?thesis by (simp add: cell_def)
  next
    case (Some lc)
    obtain l c where "lc = (l, c)" by (cases lc) auto
    with Inr Some show ?thesis
      by (simp add: cell_def getitem_def)
  qed
qed

lemma cell_features_clip:
  "cell_features (Some poly) vals lat lon i j =
     (if contains poly (0.5 * (lon ! j + lon ! (j + 1)), 0.5 * (lat ! i + lat ! (i + 1)))
      then cell_features None vals lat lon i j else [])"
  by (simp add: cell_features_def cell_clip [of poly] split: prod.splits sum.splits option.splits)

lemma on_shell_not_contained:
  assumes "on_ring p (shell poly)" and "hd (shell poly) = last (shell poly)"
  shows "\<not> contains poly p"
  using on_closed_ring_is_boundary [OF assms]
  by (simp add: contains_def locate_in_polygon_def)

text \<open>
  Claim C1, as the code has it. With a boundary configured, the iteration \<open>(i, j)\<close>
  appends what it would append unclipped when the centre of the cell, the mean of the
  two longitudes and the mean of the two latitudes, is contained in the polygon, and
  nothing otherwise. Containment is that of the interior: a centre that lies on the
  closed exterior ring is not contained, and its cell is dropped.
\<close>

theorem clip_by_interior:
  "cell_features (Some poly) vals lat lon i j =
     (if contains poly (0.5 * (lon ! j + lon ! (j + 1)), 0.5 * (lat ! i + lat ! (i + 1)))
      then cell_features None vals lat lon i j else []) \<and>
   (on_ring (0.5 * (lon ! j + lon ! (j + 1)), 0.5 * (lat ! i + lat ! (i + 1))) (shell poly) \<and>
    hd (shell poly) = last (shell poly) \<longrightarrow>
      \<not> contains poly (0.5 * (lon ! j + lon ! (j + 1)), 0.5 * (lat ! i + lat ! (i + 1))) \<and>
      cell_features (Some poly) vals lat lon i j = [])"
  using on_shell_not_contained [of _ poly]
  by (auto simp: cell_features_clip)

lemma edge_thresholds: "compute_thresholds (da_values edge_var) = (Fin 3, Fin 3, Fin 3)"
  by (simp add: edge_var_def eval_defs)

lemma edge_center_on_ring:
  "on_ring (0.5 * (106.5 + 107.5), 0.5 * (15 + 14)) (shell square)"
  by (simp add: square_def on_segment_def)

lemma edge_unclipped:
  "cell_features None edge_var [15, 14] [106.5, 107.5] 0 0 =
     [\<lparr>feat_type = ''Feature'',
       feat_geometry = \<lparr>geom_type = ''Polygon'',
         geom_coordinates =
           [[[106.5, 15], [107.5, 15], [107.5, 14], [106.5, 14], [106.5, 15]]]\<rparr>,
       feat_properties = \<lparr>prop_discharge = Fin 3, prop_risk_level = ''20'',
         prop_risk_color = ''purple''\<rparr>\<rparr>]"
  by (simp add: cell_features_def edge_thresholds)
    (simp add: edge_var_def eval_defs)

lemma edge_clipped_cell:
  "cell_features (Some square) edge_var [15, 14] [106.5, 107.5] 0 0 = []"
  by (simp add: cell_features_def edge_thresholds)
    (simp add: edge_var_def square_def eval_defs)

lemma edge_clipped:
  "field_to_geojson (Some square) edge_var [15, 14] [106.5, 107.5] =
     Inr \<lparr>fc_type = ''FeatureCollection'', fc_features = []\<rparr>"
  by (simp add: field_to_geojson_def edge_thresholds)
    (simp add: edge_var_def square_def eval_defs upt_rec)

text \<open>
  The boundary-inclusive reading of claim C1 fails: the centre (107, 14.5) of the cell
  of \<open>edge_var\<close> lies on the ring of the square, the cell has a feature when unclipped,
  and clipped against the square it has none.
\<close>

theorem center_on_ring_counterexample:
  "on_ring (0.5 * (106.5 + 107.5), 0.5 * (15 + 14)) (shell square) \<and>
   cell_features None edge_var [15, 14] [106.5, 107.5] 0 0 =
     [\<lparr>feat_type = ''Feature'',
       feat_geometry = \<lparr>geom_type = ''Polygon'',
         geom_coordinates =
           [[[106.5, 15], [107.5, 15], [107.5, 14], [106.5, 14], [106.5, 15]]]\<rparr>,
       feat_properties = \<lparr>prop_discharge = Fin 3, prop_risk_level = ''20'',
         prop_risk_color = ''purple''\<rparr>\<rparr>] \<and>
   cell_features (Some square) edge_var [15, 14] [106.5, 107.5] 0 0 = [] \<and>
   field_to_geojson (Some square) edge_var [15, 14] [106.5, 107.5] =
     Inr \<lparr>fc_type = ''FeatureCollection'', fc_features = []\<rparr>"
  using edge_center_on_ring edge_unclipped edge_clipped_cell edge_clipped by simp

lemma injected_center_inside:
  "contains square (0.5 * (107.2 + 107.6), 0.5 * (15 + 14.6))"
  by (simp add: square_def eval_defs)

lemma square_closed: "hd (shell square) = last (shell square)"
  by (simp add: square_def)

theorem clip_by_interior_witness:
  "contains square (0.5 * (107.2 + 107.6), 0.5 * (15 + 14.6)) \<and>
   cell_features (Some square) injected_var [15, 14.6, 14.2] [106.7, 107.2, 107.6] 0 1 =
     cell_features None injected_var [15, 14.6, 14.2] [106.7, 107.2, 107.6] 0 1 \<and>
   on_ring (0.5 * (106.5 + 107.5), 0.5 * (15 + 14)) (shell square) \<and>
   hd (shell square) = last (shell square) \<and>
   \<not> contains square (0.5 * (106.5 + 107.5), 0.5 * (15 + 14)) \<and>
   cell_features (Some square) edge_var [15, 14] [106.5, 107.5] 0 0 = []"
  using clip_by_interior [of square injected_var "[15, 14.6, 14.2]" "[106.7, 107.2, 107.6]" 0 1]
    clip_by_interior [of square edge_var "[15, 14]" "[106.5, 107.5]" 0 0]
    injected_center_inside edge_center_on_ring square_closed
  by (simp del: on_ring.simps)

end
